theory Spec2Isabelle
  imports Complex_Main "HOL-Library.Sublist" "HOL-Library.Multiset"
begin

section \<open>The web research tool of linkedin-post-generator\<close>

text \<open>
  A shallow embedding of \<^verbatim>\<open>src/linkedin_post/tools/web_research.py\<close>, class
  \<^verbatim>\<open>WebResearchTool\<close>. A Python method \<^verbatim>\<open>_name\<close> is the HOL function \<open>name\<close>
  (an identifier cannot start with an underscore); the string methods of Python that
  the tool calls are the functions \<open>py_...\<close> below.
\<close>

subsection \<open>Python strings\<close>

text \<open>
  A Python \<^verbatim>\<open>str\<close> is a \<open>string\<close>, one \<open>char\<close> for one code point. The character
  classes are those of Python on ASCII text: \<^verbatim>\<open>str.lower\<close> maps A-Z to a-z,
  \<^verbatim>\<open>str.isalpha\<close> accepts the letters A-Z and a-z, and the white space of
  \<^verbatim>\<open>str.split()\<close> and \<^verbatim>\<open>str.strip()\<close> is the code points 9-13, 28-31 and 32.
  A character above 127 is left alone by \<open>py_lower\<close> and is neither a letter nor
  white space.
\<close>

definition lower_char :: "char \<Rightarrow> char" where
  "lower_char c =
     (let n = (of_char c :: nat) in if 65 \<le> n \<and> n \<le> 90 then char_of (n + 32) else c)"

definition py_lower :: "string \<Rightarrow> string" where
  "py_lower s = map lower_char s"

definition is_space :: "char \<Rightarrow> bool" where
  "is_space c =
     (let n = (of_char c :: nat) in (9 \<le> n \<and> n \<le> 13) \<or> (28 \<le> n \<and> n \<le> 32))"

definition is_alpha_char :: "char \<Rightarrow> bool" where
  "is_alpha_char c =
     (let n = (of_char c :: nat) in (65 \<le> n \<and> n \<le> 90) \<or> (97 \<le> n \<and> n \<le> 122))"

text \<open>\<^verbatim>\<open>s.isalpha()\<close>: every character is a letter and there is at least one.\<close>

definition py_isalpha :: "string \<Rightarrow> bool" where
  "py_isalpha s = (s \<noteq> [] \<and> list_all is_alpha_char s)"

text \<open>\<^verbatim>\<open>sub in s\<close> on strings: \<open>sub\<close> occurs in \<open>s\<close> as a contiguous block.\<close>

fun py_in :: "string \<Rightarrow> string \<Rightarrow> bool" where
  "py_in sub [] = (sub = [])"
| "py_in sub (c # cs) = (prefix sub (c # cs) \<or> py_in sub cs)"

text \<open>
  \<^verbatim>\<open>s.split()\<close>: the maximal runs of characters that are not white space, in order;
  \<open>acc\<close> holds the current run, reversed.
\<close>

fun split_ws :: "string \<Rightarrow> string \<Rightarrow> string list" where
  "split_ws acc [] = (if acc = [] then [] else [rev acc])"
| "split_ws acc (c # cs) =
     (if is_space c then (if acc = [] then split_ws [] cs else rev acc # split_ws [] cs)
      else split_ws (c # acc) cs)"

definition py_split :: "string \<Rightarrow> string list" where
  "py_split s = split_ws [] s"

text \<open>
  \<^verbatim>\<open>s.split(sep)\<close> for a separator that is not empty (the tool only calls it with
  \<^verbatim>\<open>". "\<close>): the string is scanned from the left, every occurrence of \<open>sep\<close> that
  does not overlap the one before ends a piece, and empty pieces are kept. \<open>skip\<close>
  counts the characters of a matched separator still to be passed over.
\<close>

fun split_sep :: "string \<Rightarrow> nat \<Rightarrow> string \<Rightarrow> string \<Rightarrow> string list" where
  "split_sep sep skip acc [] = [rev acc]"
| "split_sep sep skip acc (c # cs) =
     (if 0 < skip then split_sep sep (skip - 1) acc cs
      else if prefix sep (c # cs) then rev acc # split_sep sep (length sep - 1) [] cs
      else split_sep sep 0 (c # acc) cs)"

definition py_split_sep :: "string \<Rightarrow> string \<Rightarrow> string list" where
  "py_split_sep sep s = split_sep sep 0 [] s"

text \<open>\<^verbatim>\<open>s.strip(chars)\<close>, \<^verbatim>\<open>s.strip()\<close> and \<^verbatim>\<open>s.rstrip(chars)\<close>.\<close>

definition py_strip_chars :: "string \<Rightarrow> string \<Rightarrow> string" where
  "py_strip_chars chars s =
     rev (dropWhile (\<lambda>c. c \<in> set chars) (rev (dropWhile (\<lambda>c. c \<in> set chars) s)))"

definition py_strip :: "string \<Rightarrow> string" where
  "py_strip s = rev (dropWhile is_space (rev (dropWhile is_space s)))"

definition py_rstrip_chars :: "string \<Rightarrow> string \<Rightarrow> string" where
  "py_rstrip_chars chars s = rev (dropWhile (\<lambda>c. c \<in> set chars) (rev s))"

text \<open>
  A slice \<^verbatim>\<open>xs[:n]\<close> with a Python integer: a negative \<open>n\<close> counts from the end.
\<close>

definition py_take :: "int \<Rightarrow> 'a list \<Rightarrow> 'a list" where
  "py_take n xs = (if 0 \<le> n then take (nat n) xs else take (length xs - nat (- n)) xs)"

text \<open>
  \<^verbatim>\<open>sorted(xs, key=f, reverse=True)\<close> and \<^verbatim>\<open>xs.sort(key=f, reverse=True)\<close>: Python's
  sort is stable, also when reversed, so the result is the one list that holds the
  elements of \<open>xs\<close> with keys descending and elements of equal key in their order in
  \<open>xs\<close>. Inserting the elements one by one from the right, each before the first
  element whose key is not larger, computes that list.
\<close>

fun insert_desc :: "('a \<Rightarrow> 'k::linorder) \<Rightarrow> 'a \<Rightarrow> 'a list \<Rightarrow> 'a list" where
  "insert_desc f x [] = [x]"
| "insert_desc f x (y # ys) = (if f y \<le> f x then x # y # ys else y # insert_desc f x ys)"

fun py_sorted_desc :: "('a \<Rightarrow> 'k::linorder) \<Rightarrow> 'a list \<Rightarrow> 'a list" where
  "py_sorted_desc f [] = []"
| "py_sorted_desc f (x # xs) = insert_desc f x (py_sorted_desc f xs)"

subsection \<open>Values, hits and results\<close>

text \<open>
  The search backend (\<^verbatim>\<open>DuckDuckGoSearchResults\<close> with \<^verbatim>\<open>output_format="list"\<close>)
  returns a list of hits. A hit is a dictionary from field names to values, and a
  value is text or \<^verbatim>\<open>None\<close>; an entry of the list that is not a dictionary is
  skipped by \<^verbatim>\<open>isinstance(result, dict)\<close>.
\<close>

datatype pyval = VStr string | VNone

datatype raw_hit = DictHit "(string \<times> pyval) list" | NonDict

text \<open>\<^verbatim>\<open>d.get(k, default)\<close>.\<close>

definition dict_get :: "(string \<times> pyval) list \<Rightarrow> string \<Rightarrow> pyval \<Rightarrow> pyval" where
  "dict_get d k dflt = (case map_of d k of Some v \<Rightarrow> v | None \<Rightarrow> dflt)"

text \<open>
  The exceptions of the tool. \<open>BackendError msg\<close> is whatever the search backend
  raises; \<open>LenOfNone\<close> is the \<^verbatim>\<open>TypeError\<close> of \<^verbatim>\<open>len(None)\<close> and \<open>JoinItemNone i\<close>
  the \<^verbatim>\<open>TypeError\<close> of \<^verbatim>\<open>" ".join(...)\<close> whose item \<open>i\<close> is \<^verbatim>\<open>None\<close>.
\<close>

datatype exn = BackendError string | LenOfNone | JoinItemNone nat

text \<open>
  A formatted result: the dictionary that \<^verbatim>\<open>_search_web\<close> and \<^verbatim>\<open>_search_news\<close>
  build for a hit. \<open>kind\<close> is the entry \<^verbatim>\<open>"type"\<close>; \<open>source\<close> and \<open>date\<close> exist for
  news only. The relevance is a Python float that is a sum of terms 1.0 and 0.5, an
  exact value, modelled as a rational number.
\<close>

record search_result =
  title :: pyval
  content :: pyval
  url :: pyval
  source :: "pyval option"
  date :: "pyval option"
  kind :: string
  relevance :: rat

subsection \<open>Relevance scoring\<close>

definition bonus_keywords :: "string list" where
  "bonus_keywords =
     [''2025'', ''2024'', ''2023'', ''trend'', ''growth'', ''increase'', ''statistics'',
      ''data'', ''report'']"

text \<open>
  The two loops of \<^verbatim>\<open>_calculate_relevance\<close>: each adds a fixed amount to the score
  for every word of a list that occurs in the lowered content.
\<close>

fun add_hits :: "rat \<Rightarrow> string \<Rightarrow> string list \<Rightarrow> rat \<Rightarrow> rat" where
  "add_hits amount content_lower [] score = score"
| "add_hits amount content_lower (w # ws) score =
     add_hits amount content_lower ws
       (if py_in w content_lower then score + amount else score)"

text \<open>
  \<^verbatim>\<open>if not content: return 0.0\<close> takes \<^verbatim>\<open>None\<close> and the empty string alike.
\<close>

fun calculate_relevance :: "pyval \<Rightarrow> string \<Rightarrow> rat" where
  "calculate_relevance VNone topic = 0"
| "calculate_relevance (VStr c) topic =
     (if c = [] then 0
      else
        (let content_lower = py_lower c;
             topic_words = py_split (py_lower topic);
             relevance_score = add_hits 1 content_lower topic_words 0
         in add_hits (1 / 2) content_lower bonus_keywords relevance_score))"

subsection \<open>The search backend and the two searches\<close>

text \<open>
  What the tool reads from outside: the web search tool and the news search tool
  (\<open>invoke\<close> of a query returns a list of hits or raises; a tool that cannot be
  constructed is a tool whose every query raises), the clock, \<^verbatim>\<open>urlparse(url).netloc\<close>
  of the standard library, which may raise, and the order in which Python enumerates
  the set of sources: Python leaves that order open, and here \<open>set_rank\<close> gives every
  string a rank, the set being enumerated by rising rank (strings of equal rank in
  the order in which they entered the set).
\<close>

record backend =
  web_invoke :: "string \<Rightarrow> exn + raw_hit list"
  news_invoke :: "string \<Rightarrow> exn + raw_hit list"
  now_isoformat :: string
  netloc :: "string \<Rightarrow> exn + string"
  set_rank :: "string \<Rightarrow> nat"

definition general_query :: "string \<Rightarrow> string" where
  "general_query topic = topic @ '' trends 2024''"

definition expert_query :: "string \<Rightarrow> string" where
  "expert_query topic = topic @ '' expert analysis insights''"

definition news_query :: "string \<Rightarrow> string" where
  "news_query topic = topic @ '' latest news 2024''"

definition format_web :: "string \<Rightarrow> (string \<times> pyval) list \<Rightarrow> search_result" where
  "format_web topic d =
     \<lparr>title = dict_get d ''title'' (VStr []),
      content = dict_get d ''snippet'' (VStr []),
      url = dict_get d ''link'' (VStr []),
      source = None,
      date = None,
      kind = ''web_search'',
      relevance = calculate_relevance (dict_get d ''snippet'' (VStr [])) topic\<rparr>"

definition format_news :: "string \<Rightarrow> (string \<times> pyval) list \<Rightarrow> search_result" where
  "format_news topic d =
     \<lparr>title = dict_get d ''title'' (VStr []),
      content = dict_get d ''snippet'' (VStr []),
      url = dict_get d ''link'' (VStr []),
      source = Some (dict_get d ''source'' (VStr [])),
      date = Some (dict_get d ''date'' (VStr [])),
      kind = ''news'',
      relevance = calculate_relevance (dict_get d ''snippet'' (VStr [])) topic\<rparr>"

text \<open>The loop over the hits: a hit that is a dictionary is formatted, another is skipped.\<close>

fun format_hits :: "((string \<times> pyval) list \<Rightarrow> search_result) \<Rightarrow> raw_hit list \<Rightarrow> search_result list"
  where
  "format_hits fmt [] = []"
| "format_hits fmt (DictHit d # hs) = fmt d # format_hits fmt hs"
| "format_hits fmt (NonDict # hs) = format_hits fmt hs"

text \<open>
  \<^verbatim>\<open>_search_web\<close>: one \<^verbatim>\<open>try\<close> around both queries, so an exception of either
  returns the empty list; the second query is not issued when the first raises.
\<close>

definition search_web :: "backend \<Rightarrow> string \<Rightarrow> int \<Rightarrow> search_result list" where
  "search_web be topic max_results =
     (case web_invoke be (general_query topic) of
        Inl e \<Rightarrow> []
      | Inr results \<Rightarrow>
          (case web_invoke be (expert_query topic) of
             Inl e \<Rightarrow> []
           | Inr expert_results \<Rightarrow>
               (let all_results =
                      format_hits (format_web topic)
                        (py_take max_results (results @ expert_results))
                in py_take max_results (py_sorted_desc relevance all_results))))"

definition search_news :: "backend \<Rightarrow> string \<Rightarrow> search_result list" where
  "search_news be topic =
     (case news_invoke be (news_query topic) of
        Inl e \<Rightarrow> []
      | Inr results \<Rightarrow> format_hits (format_news topic) results)"

subsection \<open>Key findings\<close>

definition finding_keywords :: "string \<Rightarrow> string list" where
  "finding_keywords topic =
     [py_lower topic, ''trend'', ''growth'', ''increase'', ''innovation'', ''market'',
      ''adoption'']"

definition is_key_sentence :: "string \<Rightarrow> string \<Rightarrow> bool" where
  "is_key_sentence topic sentence =
     (30 < length sentence \<and>
      list_ex (\<lambda>keyword. py_in keyword (py_lower sentence)) (finding_keywords topic))"

definition clean_sentence :: "string \<Rightarrow> string" where
  "clean_sentence sentence = py_rstrip_chars ''.'' (py_strip sentence)"

text \<open>
  The inner loop over the sentences of one result. The \<^verbatim>\<open>break\<close> leaves this loop
  only: the loop over the results goes on.
\<close>

fun scan_sentences :: "string \<Rightarrow> string list \<Rightarrow> string list \<Rightarrow> string list" where
  "scan_sentences topic [] findings = findings"
| "scan_sentences topic (s # ss) findings =
     (if is_key_sentence topic s then
        (if clean_sentence s \<notin> set findings then
           (let findings' = findings @ [clean_sentence s]
            in if 6 \<le> length findings' then findings' else scan_sentences topic ss findings')
         else scan_sentences topic ss findings)
      else scan_sentences topic ss findings)"

text \<open>The outer loop; \<^verbatim>\<open>len(content)\<close> raises on a content that is \<^verbatim>\<open>None\<close>.\<close>

fun scan_results :: "string \<Rightarrow> search_result list \<Rightarrow> string list \<Rightarrow> exn + string list" where
  "scan_results topic [] findings = Inr findings"
| "scan_results topic (r # rs) findings =
     (case content r of
        VNone \<Rightarrow> Inl LenOfNone
      | VStr c \<Rightarrow>
          (if 50 < length c
           then scan_results topic rs (scan_sentences topic (py_split_sep ''. '' c) findings)
           else scan_results topic rs findings))"

definition extract_key_findings :: "search_result list \<Rightarrow> string \<Rightarrow> exn + string list" where
  "extract_key_findings results topic =
     (case scan_results topic (take 8 results) [] of
        Inl e \<Rightarrow> Inl e
      | Inr findings \<Rightarrow> Inr (take 6 findings))"

subsection \<open>Trending keywords\<close>

definition punctuation :: string where
  "punctuation = ''.,!?()[]{}'' @ [CHR 0x22, CHR 0x27] @ ''-''"

definition stopwords :: "string list" where
  "stopwords =
     [''this'', ''that'', ''with'', ''from'', ''they'', ''have'', ''been'', ''will'',
      ''would'', ''could'', ''should'', ''there'', ''their'', ''where'']"

definition keep_word :: "string \<Rightarrow> bool" where
  "keep_word word = (4 < length word \<and> py_isalpha word \<and> word \<notin> set stopwords)"

text \<open>A value inside an f-string: \<^verbatim>\<open>None\<close> prints as \<^verbatim>\<open>None\<close>.\<close>

fun fstr :: "pyval \<Rightarrow> string" where
  "fstr (VStr s) = s"
| "fstr VNone = ''None''"

text \<open>
  \<^verbatim>\<open>keyword_counts[word] = keyword_counts.get(word, 0) + 1\<close> on a dictionary, which
  keeps its keys in the order of their first insertion.
\<close>

fun bump :: "(string \<times> nat) list \<Rightarrow> string \<Rightarrow> (string \<times> nat) list" where
  "bump [] word = [(word, 1)]"
| "bump ((k, c) # kcs) word =
     (if k = word then (k, c + 1) # kcs else (k, c) # bump kcs word)"

fun tally_words :: "string list \<Rightarrow> (string \<times> nat) list \<Rightarrow> (string \<times> nat) list" where
  "tally_words [] keyword_counts = keyword_counts"
| "tally_words (w # ws) keyword_counts =
     (let word = py_strip_chars punctuation w
      in if keep_word word then tally_words ws (bump keyword_counts word)
         else tally_words ws keyword_counts)"

definition result_words :: "search_result \<Rightarrow> string list" where
  "result_words r = py_split (py_lower (fstr (title r) @ '' '' @ fstr (content r)))"

fun tally_results :: "search_result list \<Rightarrow> (string \<times> nat) list \<Rightarrow> (string \<times> nat) list" where
  "tally_results [] keyword_counts = keyword_counts"
| "tally_results (r # rs) keyword_counts =
     tally_results rs (tally_words (result_words r) keyword_counts)"

definition extract_trending_keywords :: "search_result list \<Rightarrow> string list" where
  "extract_trending_keywords results =
     map fst (take 10 (py_sorted_desc snd (tally_results results [])))"

subsection \<open>Summary, sources and the fallback\<close>

definition newline :: string where
  "newline = [CHR 0x0A]"

definition quote :: string where
  "quote = [CHR 0x27]"

text \<open>
  The bullet of the summary lines is the code point U+2022, which no \<open>char\<close> holds;
  it is written as its three UTF-8 bytes.
\<close>

definition bullet :: string where
  "bullet = [CHR 0xE2, CHR 0x80, CHR 0xA2]"

text \<open>\<^verbatim>\<open>str(n)\<close> of a length.\<close>

fun str_nat :: "nat \<Rightarrow> string" where
  "str_nat n =
     (if n < 10 then [char_of (48 + n)]
      else str_nat (n div 10) @ [char_of (48 + n mod 10)])"

declare str_nat.simps [simp del]

text \<open>\<^verbatim>\<open>sep.join(parts)\<close>.\<close>

fun py_join :: "string \<Rightarrow> string list \<Rightarrow> string" where
  "py_join sep [] = []"
| "py_join sep [x] = x"
| "py_join sep (x # y # ys) = x @ sep @ py_join sep (y # ys)"

text \<open>
  The list \<^verbatim>\<open>[r.get("content", "") for r in ...]\<close> as \<^verbatim>\<open>join\<close> reads it: the
  first item that is not a string raises, with its index.
\<close>

fun contents_from :: "nat \<Rightarrow> search_result list \<Rightarrow> exn + string list" where
  "contents_from i [] = Inr []"
| "contents_from i (r # rs) =
     (case content r of
        VNone \<Rightarrow> Inl (JoinItemNone i)
      | VStr c \<Rightarrow>
          (case contents_from (Suc i) rs of
             Inl e \<Rightarrow> Inl e
           | Inr cs \<Rightarrow> Inr (c # cs)))"

definition generate_summary ::
  "search_result list \<Rightarrow> search_result list \<Rightarrow> string \<Rightarrow> exn + string" where
  "generate_summary web_results news_results topic =
     (let parts0 = [''Research Summary for '' @ quote @ topic @ quote @ '':'' @ newline];
          parts1 =
            (if web_results \<noteq> []
             then parts0 @
               [bullet @ '' Found '' @ str_nat (length web_results) @
                '' relevant web sources with insights on '' @ topic]
             else parts0);
          parts2 =
            (if news_results \<noteq> []
             then parts1 @
               [bullet @ '' Discovered '' @ str_nat (length news_results) @
                '' recent news articles covering latest developments'']
             else parts1)
      in case contents_from 0 (web_results @ news_results) of
           Inl e \<Rightarrow> Inl e
         | Inr cs \<Rightarrow>
             (let all_content = py_join '' '' cs;
                  parts3 =
                    (if py_in ''growth'' (py_lower all_content)
                     then parts2 @ [bullet @ '' Market growth and expansion trends identified'']
                     else parts2);
                  parts4 =
                    (if py_in ''innovation'' (py_lower all_content)
                     then parts3 @ [bullet @ '' Innovation and technological advancements noted'']
                     else parts3);
                  parts5 =
                    (if py_in ''adoption'' (py_lower all_content)
                     then parts4 @
                       [bullet @ '' Adoption patterns and user engagement insights found'']
                     else parts4);
                  parts6 =
                    parts5 @
                      [newline @ ''The research indicates '' @ topic @
                       '' is an active area with substantial industry interest and ongoing developments.'']
              in Inr (py_join newline parts6)))"

text \<open>
  \<^verbatim>\<open>_get_unique_sources\<close>: the domain of every url that is not empty, or the url
  itself when \<^verbatim>\<open>urlparse\<close> raises, collected in a set. The set is the list of its
  elements in the order in which they entered it, each once.
\<close>

definition set_add :: "string list \<Rightarrow> string \<Rightarrow> string list" where
  "set_add sources x = (if x \<in> set sources then sources else sources @ [x])"

fun collect_sources :: "backend \<Rightarrow> search_result list \<Rightarrow> string list \<Rightarrow> string list" where
  "collect_sources be [] sources = sources"
| "collect_sources be (r # rs) sources =
     (case url r of
        VNone \<Rightarrow> collect_sources be rs sources
      | VStr u \<Rightarrow>
          (if u = [] then collect_sources be rs sources
           else
             (case netloc be u of
                Inl e \<Rightarrow> collect_sources be rs (set_add sources u)
              | Inr domain \<Rightarrow>
                  (if domain \<noteq> [] then collect_sources be rs (set_add sources domain)
                   else collect_sources be rs sources))))"

definition get_unique_sources :: "backend \<Rightarrow> search_result list \<Rightarrow> string list" where
  "get_unique_sources be results =
     take 10 (sort_key (set_rank be) (collect_sources be results []))"

text \<open>
  What \<^verbatim>\<open>json.dumps\<close> is given: the tool returns the text of such a value, and the
  model returns the value.
\<close>

datatype json =
  JNull | JStr string | JInt int | JNum rat | JList "json list" | JObj "(string \<times> json) list"

fun pyval_json :: "pyval \<Rightarrow> json" where
  "pyval_json (VStr s) = JStr s"
| "pyval_json VNone = JNull"

definition result_json :: "search_result \<Rightarrow> json" where
  "result_json r =
     JObj
       ([(''title'', pyval_json (title r)),
         (''content'', pyval_json (content r)),
         (''url'', pyval_json (url r))] @
        (case source r of None \<Rightarrow> [] | Some v \<Rightarrow> [(''source'', pyval_json v)]) @
        (case date r of None \<Rightarrow> [] | Some v \<Rightarrow> [(''date'', pyval_json v)]) @
        [(''type'', JStr (kind r)),
         (''relevance'', JNum (relevance r))])"

definition generate_fallback_insights :: "string \<Rightarrow> (string \<times> json) list" where
  "generate_fallback_insights topic =
     [(''general_insights'',
       JList
         [JStr (topic @ '' is an emerging field with significant potential''),
          JStr (''Industry adoption of '' @ topic @ '' is accelerating''),
          JStr (''Key players are investing heavily in '' @ topic @ '' development'')]),
      (''trending_themes'',
       JList [JStr ''innovation'', JStr ''growth'', JStr ''adoption'', JStr ''technology'',
              JStr ''market'']),
      (''note'',
       JStr ''These are general insights due to search limitations. For accurate information, please verify with current sources.'')]"

text \<open>\<^verbatim>\<open>str(e)\<close> of an exception.\<close>

fun str_exn :: "exn \<Rightarrow> string" where
  "str_exn (BackendError msg) = msg"
| "str_exn LenOfNone = ''object of type '' @ quote @ ''NoneType'' @ quote @ '' has no len()''"
| "str_exn (JoinItemNone i) =
     ''sequence item '' @ str_nat i @ '': expected str instance, NoneType found''"

subsection \<open>The tool\<close>

text \<open>
  The body of the \<^verbatim>\<open>try\<close> of \<^verbatim>\<open>_run\<close>. The entries of \<^verbatim>\<open>research_data\<close> are
  computed in the order in which they are written, so the first one that raises decides
  the exception.
\<close>

definition run_body :: "backend \<Rightarrow> string \<Rightarrow> int \<Rightarrow> exn + json" where
  "run_body be topic max_results =
     (let web_results = search_web be topic max_results;
          news_results = search_news be topic
      in case extract_key_findings (web_results @ news_results) topic of
           Inl e \<Rightarrow> Inl e
         | Inr key_findings \<Rightarrow>
             (let trending_keywords = extract_trending_keywords (web_results @ news_results)
              in case generate_summary web_results news_results topic of
                   Inl e \<Rightarrow> Inl e
                 | Inr summary \<Rightarrow>
                     (let sources = get_unique_sources be (web_results @ news_results)
                      in Inr (JObj
                           [(''topic'', JStr topic),
                            (''search_performed_at'', JStr (now_isoformat be)),
                            (''web_results'',
                             JObj [(''count'', JInt (int (length web_results))),
                                   (''results'', JList (map result_json web_results))]),
                            (''news_results'',
                             JObj [(''count'', JInt (int (length news_results))),
                                   (''results'', JList (map result_json news_results))]),
                            (''key_findings'', JList (map JStr key_findings)),
                            (''trending_keywords'', JList (map JStr trending_keywords)),
                            (''summary'', JStr summary),
                            (''sources'', JList (map JStr sources))]))))"

text \<open>
  \<^verbatim>\<open>_run\<close>: \<open>Inr\<close> is a returned value and \<open>Inl\<close> an exception that reaches the
  caller. The handler catches every exception of the body.
\<close>

definition run :: "backend \<Rightarrow> string \<Rightarrow> int \<Rightarrow> exn + json" where
  "run be topic max_results =
     (case run_body be topic max_results of
        Inr research_data \<Rightarrow> Inr research_data
      | Inl e \<Rightarrow>
          Inr (JObj
            [(''error'', JStr (''Web search failed: '' @ str_exn e)),
             (''topic'', JStr topic),
             (''fallback_insights'', JObj (generate_fallback_insights topic))]))"

subsection \<open>Notions of the specification\<close>

text \<open>
  The two shapes of the output, by their field names (section 6 of the specification):
  a research report and a fallback report.
\<close>

fun keys_of :: "json \<Rightarrow> string list" where
  "keys_of (JObj kvs) = map fst kvs"
| "keys_of JNull = []"
| "keys_of (JStr s) = []"
| "keys_of (JInt i) = []"
| "keys_of (JNum q) = []"
| "keys_of (JList js) = []"

definition research_fields :: "string list" where
  "research_fields =
     [''topic'', ''search_performed_at'', ''web_results'', ''news_results'', ''key_findings'',
      ''trending_keywords'', ''summary'', ''sources'']"

definition fallback_fields :: "string list" where
  "fallback_fields = [''error'', ''topic'', ''fallback_insights'']"

definition is_research_report :: "json \<Rightarrow> bool" where
  "is_research_report j = (keys_of j = research_fields)"

definition is_fallback_report :: "json \<Rightarrow> bool" where
  "is_fallback_report j = (keys_of j = fallback_fields)"

fun json_get :: "string \<Rightarrow> json \<Rightarrow> json" where
  "json_get k (JObj kvs) = (case map_of kvs k of Some v \<Rightarrow> v | None \<Rightarrow> JNull)"
| "json_get k JNull = JNull"
| "json_get k (JStr s) = JNull"
| "json_get k (JInt i) = JNull"
| "json_get k (JNum q) = JNull"
| "json_get k (JList js) = JNull"

text \<open>
  The fallback report as the specification words it: the fields \<open>error\<close>, \<open>topic\<close> and
  \<open>fallback_insights\<close>, the last with \<open>general_insights\<close> and \<open>trending_themes\<close> and
  nothing else.
\<close>

definition fallback_fields_claimed :: "json \<Rightarrow> bool" where
  "fallback_fields_claimed j =
     (keys_of j = fallback_fields \<and>
      keys_of (json_get ''fallback_insights'' j) = [''general_insights'', ''trending_themes''])"


text \<open>
  The tokens that the keyword tally counts, in the order in which it meets them; the
  frequency of a token is the number of its occurrences among them, and \<open>first_seen\<close>
  is the position of its first occurrence.
\<close>

definition kept_tokens :: "search_result list \<Rightarrow> string list" where
  "kept_tokens results =
     concat (map (\<lambda>r. filter keep_word (map (py_strip_chars punctuation) (result_words r)))
               results)"

definition frequency :: "search_result list \<Rightarrow> string \<Rightarrow> nat" where
  "frequency results w = count_list (kept_tokens results) w"

definition first_index :: "'a list \<Rightarrow> 'a \<Rightarrow> nat" where
  "first_index xs a = length (takeWhile (\<lambda>x. x \<noteq> a) xs)"

definition first_seen :: "search_result list \<Rightarrow> string \<Rightarrow> nat" where
  "first_seen results w = first_index (kept_tokens results) w"

subsection \<open>Example inputs\<close>

definition dict_a :: "(string \<times> pyval) list" where
  "dict_a =
     [(''title'', VStr ''A''), (''snippet'', VStr ''cooking tips''),
      (''link'', VStr ''https://a.example/tips'')]"

definition content_b :: string where
  "content_b =
     ''AI growth trend 2024. The market for ai tools is growing quickly in every region.''"

definition dict_b :: "(string \<times> pyval) list" where
  "dict_b =
     [(''title'', VStr ''B''), (''snippet'', VStr content_b),
      (''link'', VStr ''https://b.example/ai'')]"



definition dict_none :: "(string \<times> pyval) list" where
  "dict_none = [(''title'', VStr ''N''), (''snippet'', VNone)]"

text \<open>
  A backend whose general query for the topic \<open>ai\<close> finds the hit \<open>dict_a\<close>, whose
  expert query finds \<open>dict_b\<close> and whose news query finds nothing.
\<close>

definition be_ok :: backend where
  "be_ok =
     \<lparr>web_invoke =
        (\<lambda>q. if q = ''ai trends 2024'' then Inr [DictHit dict_a]
             else if q = ''ai expert analysis insights'' then Inr [DictHit dict_b]
             else Inr []),
      news_invoke = (\<lambda>q. Inr []),
      now_isoformat = ''2024-05-01T12:00:00'',
      netloc = (\<lambda>u. Inr (takeWhile (\<lambda>c. c \<noteq> CHR ''/'') (drop 8 u))),
      set_rank = (\<lambda>s. 0)\<rparr>"

text \<open>The same backend with an expert query that raises.\<close>

definition be_expert_down :: backend where
  "be_expert_down =
     be_ok\<lparr>web_invoke :=
       (\<lambda>q. if q = ''ai trends 2024'' then Inr [DictHit dict_a]
            else Inl (BackendError ''timeout''))\<rparr>"

text \<open>A backend whose every query raises.\<close>

definition be_down :: backend where
  "be_down =
     be_ok\<lparr>web_invoke := (\<lambda>q. Inl (BackendError ''timeout'')),
           news_invoke := (\<lambda>q. Inl (BackendError ''timeout''))\<rparr>"

text \<open>A backend whose news query finds a hit with the snippet \<^verbatim>\<open>None\<close>.\<close>

definition be_none :: backend where
  "be_none = be_ok\<lparr>news_invoke := (\<lambda>q. Inr [DictHit dict_none])\<rparr>"

text \<open>The report that \<open>be_none\<close> leads to.\<close>

definition fallback_ai :: json where
  "fallback_ai =
     JObj
       [(''error'',
         JStr (''Web search failed: object of type '' @ quote @ ''NoneType'' @ quote @
               '' has no len()'')),
        (''topic'', JStr ''ai''),
        (''fallback_insights'',
         JObj
           [(''general_insights'',
             JList
               [JStr ''ai is an emerging field with significant potential'',
                JStr ''Industry adoption of ai is accelerating'',
                JStr ''Key players are investing heavily in ai development'']),
            (''trending_themes'',
             JList [JStr ''innovation'', JStr ''growth'', JStr ''adoption'', JStr ''technology'',
                    JStr ''market'']),
            (''note'',
             JStr ''These are general insights due to search limitations. For accurate information, please verify with current sources.'')])]"

text \<open>Three formatted results, the second and third alike.\<close>

definition results_abb :: "search_result list" where
  "results_abb = map (format_web ''ai'') [dict_a, dict_b, dict_b]"

section \<open>Properties\<close>

subsection \<open>Sorting and slicing\<close>

lemma mset_insert_desc: "mset (insert_desc f x xs) = add_mset x (mset xs)"
  by (induction xs) simp_all

lemma mset_py_sorted_desc: "mset (py_sorted_desc f xs) = mset xs"
  by (induction xs) (simp_all add: mset_insert_desc)

lemma set_py_sorted_desc: "set (py_sorted_desc f xs) = set xs"
  using mset_py_sorted_desc [of f xs] by (metis set_mset_mset)


lemma set_insert_desc: "set (insert_desc f x xs) = insert x (set xs)"
  using mset_insert_desc [of f x xs] by (metis set_mset_mset set_mset_add_mset_insert)

lemma sorted_insert_desc:
  "sorted_wrt (\<lambda>a b. f b \<le> f a) xs \<Longrightarrow> sorted_wrt (\<lambda>a b. f b \<le> f a) (insert_desc f x xs)"
proof (induction xs)
  case Nil
  show ?case by simp
next
  case (Cons y ys)
  show ?case
  proof (cases "f y \<le> f x")
    case True
    then show ?thesis using Cons.prems by auto
  next
    case False
    then have "f x \<le> f y" by simp
    then show ?thesis using False Cons by (auto simp: set_insert_desc)
  qed
qed

lemma sorted_py_sorted_desc: "sorted_wrt (\<lambda>a b. f b \<le> f a) (py_sorted_desc f xs)"
  by (induction xs) (simp_all add: sorted_insert_desc)

text \<open>Stability: the elements of one key keep the order they had.\<close>

lemma filter_insert_desc:
  "filter (\<lambda>y. f y = k) (insert_desc f x xs) =
     (if f x = k then x # filter (\<lambda>y. f y = k) xs else filter (\<lambda>y. f y = k) xs)"
  by (induction xs) auto

lemma stable_py_sorted_desc:
  "filter (\<lambda>y. f y = k) (py_sorted_desc f xs) = filter (\<lambda>y. f y = k) xs"
  by (induction xs) (simp_all add: filter_insert_desc)

lemma sorted_wrt_filter_iff:
  "sorted_wrt P (filter Q xs) \<longleftrightarrow> sorted_wrt (\<lambda>a b. Q a \<and> Q b \<longrightarrow> P a b) xs"
  by (induction xs) auto

text \<open>
  A list that is in the order \<open>P\<close> is, once sorted, descending by key, and in the
  order \<open>P\<close> among equal keys.
\<close>

lemma py_sorted_desc_ties:
  assumes "sorted_wrt P xs"
  shows "sorted_wrt (\<lambda>a b. f b < f a \<or> (f a = f b \<and> P a b)) (py_sorted_desc f xs)"
proof -
  let ?ys = "py_sorted_desc f xs"
  have desc: "sorted_wrt (\<lambda>a b. f b \<le> f a) ?ys" by (rule sorted_py_sorted_desc)
  have tie: "sorted_wrt (\<lambda>a b. f a = k \<and> f b = k \<longrightarrow> P a b) ?ys" for k
  proof -
    have "sorted_wrt P (filter (\<lambda>y. f y = k) xs)"
      using assms by (rule sorted_wrt_filter)
    then have "sorted_wrt P (filter (\<lambda>y. f y = k) ?ys)"
      by (simp only: stable_py_sorted_desc)
    then show ?thesis by (simp only: sorted_wrt_filter_iff)
  qed
  show ?thesis
    unfolding sorted_wrt_iff_nth_less
  proof (intro allI impI)
    fix i j assume ij: "i < j" and j: "j < length ?ys"
    have le: "f (?ys ! j) \<le> f (?ys ! i)"
      using desc ij j unfolding sorted_wrt_iff_nth_less by blast
    have t: "f (?ys ! i) = f (?ys ! j) \<Longrightarrow> P (?ys ! i) (?ys ! j)"
      using tie [of "f (?ys ! j)"] ij j unfolding sorted_wrt_iff_nth_less by blast
    show "f (?ys ! j) < f (?ys ! i) \<or> (f (?ys ! i) = f (?ys ! j) \<and> P (?ys ! i) (?ys ! j))"
      using le t by (cases "f (?ys ! i) = f (?ys ! j)") auto
  qed
qed




subsection \<open>Relevance\<close>

lemma add_hits_count:
  "add_hits a c ws s = s + a * of_nat (length (filter (\<lambda>w. py_in w c) ws))"
  by (induction ws arbitrary: s) (simp_all add: algebra_simps)

lemma length_bonus_keywords: "length bonus_keywords = 9"
  by (simp add: bonus_keywords_def)

lemma split_ws_nonempty: "[] \<notin> set (split_ws acc s)"
  by (induction s arbitrary: acc) auto

text \<open>
  The score of a snippet that is not empty: the number of topic words in it, plus half
  the number of bonus keywords in it.
\<close>

lemma relevance_value:
  "c \<noteq> [] \<Longrightarrow> calculate_relevance (VStr c) topic =
     of_nat (length (filter (\<lambda>w. py_in w (py_lower c)) (py_split (py_lower topic)))) +
     of_nat (length (filter (\<lambda>w. py_in w (py_lower c)) bonus_keywords)) / 2"
  by (simp add: add_hits_count Let_def)

text \<open>
  Claim C10: for every snippet (text, empty or \<^verbatim>\<open>None\<close>) and every topic the relevance
  is a natural number of halves, hence not negative, and at most the number of topic
  words plus half the number of bonus keywords, which is 9 / 2.
\<close>

theorem relevance_half_multiple_bounded:
  "(\<exists>k::nat. calculate_relevance S T = of_nat k / 2) \<and>
   0 \<le> calculate_relevance S T \<and>
   calculate_relevance S T \<le>
     of_nat (length (py_split (py_lower T))) + of_nat (length bonus_keywords) / 2 \<and>
   of_nat (length bonus_keywords) / 2 = (9 / 2 :: rat)"
proof (cases "\<exists>c. S = VStr c \<and> c \<noteq> []")
  case False
  then have z: "calculate_relevance S T = 0"
    by (cases S) auto
  have "calculate_relevance S T = of_nat 0 / 2" using z by simp
  then have "\<exists>k::nat. calculate_relevance S T = of_nat k / 2" by blast
  then show ?thesis using z by (simp add: length_bonus_keywords)
next
  case True
  then obtain c where S: "S = VStr c" and c: "c \<noteq> []" by blast
  let ?a = "length (filter (\<lambda>w. py_in w (py_lower c)) (py_split (py_lower T)))"
  let ?b = "length (filter (\<lambda>w. py_in w (py_lower c)) bonus_keywords)"
  have v: "calculate_relevance S T = of_nat ?a + of_nat ?b / 2"
    unfolding S by (rule relevance_value [OF c])
  have "calculate_relevance S T = of_nat (2 * ?a + ?b) / 2"
    unfolding v by simp
  then have ex: "\<exists>k::nat. calculate_relevance S T = of_nat k / 2" by blast
  have a: "?a \<le> length (py_split (py_lower T))" by (rule length_filter_le)
  have b: "?b \<le> length bonus_keywords" by (rule length_filter_le)
  have ub: "calculate_relevance S T \<le>
              of_nat (length (py_split (py_lower T))) + of_nat (length bonus_keywords) / 2"
    unfolding v using a b by (intro add_mono divide_right_mono) simp_all
  have nn: "0 \<le> calculate_relevance S T" unfolding v by simp
  show ?thesis using ex ub nn by (simp add: length_bonus_keywords)
qed

text \<open>
  The claim at the snippet and topic of the scenario of the specification; the score
  there is 3.
\<close>

theorem relevance_half_multiple_bounded_witness:
  "calculate_relevance (VStr ''AI systems trend in 2024'') ''multi-agent AI systems'' = 3 \<and>
   (\<exists>k::nat. calculate_relevance (VStr ''AI systems trend in 2024'') ''multi-agent AI systems''
      = of_nat k / 2) \<and>
   calculate_relevance (VStr ''AI systems trend in 2024'') ''multi-agent AI systems'' \<le>
     of_nat (length (py_split (py_lower ''multi-agent AI systems''))) +
     of_nat (length bonus_keywords) / 2"
proof -
  have v: "calculate_relevance (VStr ''AI systems trend in 2024'') ''multi-agent AI systems'' = 3"
    by code_simp
  show ?thesis
    using v relevance_half_multiple_bounded
      [of "VStr ''AI systems trend in 2024''" "''multi-agent AI systems''"]
    by blast
qed

text \<open>
  Claim C6: when the lowered snippet contains every word of the lowered topic, the
  relevance of the snippet is at least the number of these words.
\<close>

theorem relevance_at_least_topic_words:
  assumes "\<forall>w \<in> set (py_split (py_lower T)). py_in w (py_lower S)"
  shows "of_nat (length (py_split (py_lower T))) \<le> calculate_relevance (VStr S) T"
proof (cases "S = []")
  case True
  have "py_split (py_lower T) = []"
  proof (rule ccontr)
    assume "py_split (py_lower T) \<noteq> []"
    then obtain w where w: "w \<in> set (py_split (py_lower T))"
      by (cases "py_split (py_lower T)") auto
    with assms True have "w = []" by (simp add: py_lower_def)
    with w show False by (simp add: py_split_def split_ws_nonempty)
  qed
  then show ?thesis using True by simp
next
  case False
  have all: "filter (\<lambda>w. py_in w (py_lower S)) (py_split (py_lower T)) = py_split (py_lower T)"
    using assms by (simp add: filter_id_conv)
  show ?thesis
    unfolding relevance_value [OF False] all by simp
qed

theorem relevance_at_least_topic_words_witness:
  "py_split (py_lower ''AI Systems'') = [''ai'', ''systems''] \<and>
   py_in ''ai'' (py_lower ''New AI systems trend'') \<and>
   py_in ''systems'' (py_lower ''New AI systems trend'') \<and>
   of_nat (length (py_split (py_lower ''AI Systems''))) \<le>
     calculate_relevance (VStr ''New AI systems trend'') ''AI Systems''"
proof -
  have s: "py_split (py_lower ''AI Systems'') = [''ai'', ''systems'']"
    by code_simp
  have a: "py_in ''ai'' (py_lower ''New AI systems trend'')"
    by code_simp
  have b: "py_in ''systems'' (py_lower ''New AI systems trend'')"
    by code_simp
  have h: "\<forall>w \<in> set (py_split (py_lower ''AI Systems'')). py_in w (py_lower ''New AI systems trend'')"
    unfolding s using a b by simp
  show ?thesis using s a b relevance_at_least_topic_words [OF h] by blast
qed

subsection \<open>The web search\<close>




text \<open>
  Claim C2, as the code has it: when either web query raises, the web results are
  empty, whatever the other query found; the news results do not depend on the web
  search tool.
\<close>

theorem web_query_failure_empties_web_results:
  assumes "isl (web_invoke be (general_query topic)) \<or> isl (web_invoke be (expert_query topic))"
  shows "search_web be topic max_results = [] \<and>
         search_news (be\<lparr>web_invoke := w\<rparr>) topic = search_news be topic"
  using assms by (auto simp: search_web_def search_news_def split: sum.splits)

theorem web_query_failure_empties_web_results_witness:
  "(isl (web_invoke be_expert_down (general_query ''ai'')) \<or>
    isl (web_invoke be_expert_down (expert_query ''ai''))) \<and>
   search_web be_expert_down ''ai'' 5 = [] \<and>
   search_news (be_expert_down\<lparr>web_invoke := web_invoke be_ok\<rparr>) ''ai'' =
     search_news be_expert_down ''ai''"
proof -
  have h: "isl (web_invoke be_expert_down (general_query ''ai'')) \<or>
           isl (web_invoke be_expert_down (expert_query ''ai''))"
    by code_simp
  show ?thesis
    using h web_query_failure_empties_web_results [OF h, of 5 "web_invoke be_ok"] by blast
qed

text \<open>
  Claim C2 as stated fails: the general query returns the hit A, the expert query
  raises, and the result of A is not among the web results, which are empty.
\<close>

theorem one_failed_query_drops_other_hits_counterexample:
  "web_invoke be_expert_down (general_query ''ai'') = Inr [DictHit dict_a] \<and>
   web_invoke be_expert_down (expert_query ''ai'') = Inl (BackendError ''timeout'') \<and>
   format_web ''ai'' dict_a \<notin> set (search_web be_expert_down ''ai'' 5) \<and>
   search_web be_expert_down ''ai'' 5 = []"
  by code_simp

subsection \<open>Key findings\<close>

lemma scan_sentences_distinct:
  "distinct fs \<Longrightarrow> distinct (scan_sentences t ss fs)"
  by (induction ss arbitrary: fs) (simp_all add: Let_def)



lemma scan_results_distinct:
  "scan_results t rs fs = Inr out \<Longrightarrow> distinct fs \<Longrightarrow> distinct out"
  by (induction rs arbitrary: fs)
     (auto simp: scan_sentences_distinct split: pyval.splits if_splits)



text \<open>
  Claim C7: the key findings that the extraction returns are at most six and no two of
  them are equal.
\<close>

theorem key_findings_bounded_distinct:
  assumes "extract_key_findings results topic = Inr findings"
  shows "length findings \<le> 6 \<and> distinct findings"
proof -
  obtain out where out: "scan_results topic (take 8 results) [] = Inr out"
    and f: "findings = take 6 out"
    using assms by (auto simp: extract_key_findings_def split: sum.splits)
  have "distinct out" using scan_results_distinct [OF out] by simp
  then show ?thesis using f by simp
qed

theorem key_findings_bounded_distinct_witness:
  "extract_key_findings results_abb ''ai'' =
     Inr [''The market for ai tools is growing quickly in every region''] \<and>
   length [''The market for ai tools is growing quickly in every region''] \<le> 6 \<and>
   distinct [''The market for ai tools is growing quickly in every region'']"
proof -
  have h: "extract_key_findings results_abb ''ai'' =
             Inr [''The market for ai tools is growing quickly in every region'']"
    by code_simp
  show ?thesis using h key_findings_bounded_distinct [OF h] by blast
qed




subsection \<open>Trending keywords\<close>

lemma tally_words_foldl:
  "tally_words ws kc = foldl bump kc (filter keep_word (map (py_strip_chars punctuation) ws))"
  by (induction ws arbitrary: kc) (simp_all add: Let_def)

lemma tally_results_foldl:
  "tally_results rs kc = foldl bump kc (kept_tokens rs)"
  by (induction rs arbitrary: kc) (simp_all add: kept_tokens_def tally_words_foldl)

lemma keys_bump:
  "map fst (bump kc w) = (if w \<in> set (map fst kc) then map fst kc else map fst kc @ [w])"
  by (induction kc w rule: bump.induct) auto

lemma map_of_bump:
  "map_of (bump kc w) =
     (map_of kc)(w \<mapsto> (case map_of kc w of None \<Rightarrow> 1 | Some c \<Rightarrow> c + 1))"
  by (induction kc w rule: bump.induct) (auto simp: fun_eq_iff)

lemma first_index_less: "a \<in> set xs \<Longrightarrow> first_index xs a < length xs"
  unfolding first_index_def by (induction xs) auto

lemma first_index_snoc_old: "a \<in> set xs \<Longrightarrow> first_index (xs @ [w]) a = first_index xs a"
  unfolding first_index_def by (induction xs) auto

lemma first_index_snoc_new: "w \<notin> set xs \<Longrightarrow> first_index (xs @ [w]) w = length xs"
  unfolding first_index_def by (induction xs) auto

text \<open>
  The dictionary after the tokens \<open>toks\<close>: its keys are the tokens, each once, in the
  order of their first occurrence, and every key has the number of its occurrences.
\<close>

lemma tally_invariant:
  "distinct (map fst (foldl bump [] toks)) \<and>
   set (map fst (foldl bump [] toks)) = set toks \<and>
   sorted_wrt (\<lambda>a b. first_index toks a < first_index toks b) (map fst (foldl bump [] toks)) \<and>
   (\<forall>k. map_of (foldl bump [] toks) k =
          (if k \<in> set toks then Some (count_list toks k) else None))"
proof (induction toks rule: rev_induct)
  case Nil
  show ?case by simp
next
  case (snoc w toks)
  let ?kc = "foldl bump [] toks"
  have d: "distinct (map fst ?kc)" and s: "set (map fst ?kc) = set toks"
    and o: "sorted_wrt (\<lambda>a b. first_index toks a < first_index toks b) (map fst ?kc)"
    and m: "\<And>k. map_of ?kc k = (if k \<in> set toks then Some (count_list toks k) else None)"
    using snoc.IH by blast+
  have step: "foldl bump [] (toks @ [w]) = bump ?kc w" by simp
  have o': "sorted_wrt (\<lambda>a b. first_index (toks @ [w]) a < first_index (toks @ [w]) b)
              (map fst ?kc)"
    using o s by (auto intro: sorted_wrt_mono_rel [rotated] simp: first_index_snoc_old)
  have c1: "distinct (map fst (bump ?kc w))"
    using d s by (simp add: keys_bump)
  have c2: "set (map fst (bump ?kc w)) = set (toks @ [w])"
    using s by (auto simp: keys_bump)
  have c3: "sorted_wrt (\<lambda>a b. first_index (toks @ [w]) a < first_index (toks @ [w]) b)
              (map fst (bump ?kc w))"
  proof (cases "w \<in> set toks")
    case True
    then show ?thesis using o' s by (simp add: keys_bump)
  next
    case False
    have "\<forall>a \<in> set toks. first_index (toks @ [w]) a < first_index (toks @ [w]) w"
      using False by (simp add: first_index_snoc_old first_index_snoc_new first_index_less)
    then have "\<forall>a \<in> set (map fst ?kc).
                 first_index (toks @ [w]) a < first_index (toks @ [w]) w"
      unfolding s .
    moreover have "w \<notin> set (map fst ?kc)" unfolding s by (rule False)
    ultimately show ?thesis using o' by (simp add: keys_bump sorted_wrt_append)
  qed
  have c4: "\<forall>k. map_of (bump ?kc w) k =
              (if k \<in> set (toks @ [w]) then Some (count_list (toks @ [w]) k) else None)"
    using m by (auto simp: map_of_bump count_list_0_iff)
  show ?case unfolding step using c1 c2 c3 c4 by blast
qed

text \<open>
  Claim C8: the trending keywords are at most ten; they are sorted by descending
  frequency, keywords of equal frequency in the order in which they were first seen;
  and each of them is longer than four characters, alphabetic and no stop word.
\<close>

theorem trending_keywords_sorted_filtered:
  "length (extract_trending_keywords results) \<le> 10 \<and>
   sorted_wrt (\<lambda>a b. frequency results b < frequency results a \<or>
                 (frequency results a = frequency results b \<and>
                  first_seen results a < first_seen results b))
     (extract_trending_keywords results) \<and>
   (\<forall>w \<in> set (extract_trending_keywords results).
      4 < length w \<and> py_isalpha w \<and> w \<notin> set stopwords)"
proof -
  let ?toks = "kept_tokens results"
  let ?kc = "tally_results results []"
  let ?ys = "py_sorted_desc snd ?kc"
  have kc: "?kc = foldl bump [] ?toks" by (rule tally_results_foldl)
  have d: "distinct (map fst ?kc)" and s: "set (map fst ?kc) = set ?toks"
    and o: "sorted_wrt (\<lambda>a b. first_index ?toks a < first_index ?toks b) (map fst ?kc)"
    and m: "\<And>k. map_of ?kc k = (if k \<in> set ?toks then Some (count_list ?toks k) else None)"
    unfolding kc using tally_invariant [of ?toks] by blast+
  have cnt: "snd p = frequency results (fst p)" if "p \<in> set ?kc" for p
  proof -
    obtain k c where p: "p = (k, c)" by (cases p)
    have "map_of ?kc k = Some c" using that d p by simp
    then show ?thesis using m [of k] p by (auto simp: frequency_def split: if_splits)
  qed
  have o2: "sorted_wrt (\<lambda>p q. first_seen results (fst p) < first_seen results (fst q)) ?kc"
    using o by (simp add: sorted_wrt_map first_seen_def)
  have "sorted_wrt (\<lambda>p q. snd q < snd p \<or>
          (snd p = snd q \<and> first_seen results (fst p) < first_seen results (fst q))) ?ys"
    using o2 by (rule py_sorted_desc_ties)
  then have "sorted_wrt (\<lambda>p q. snd q < snd p \<or>
          (snd p = snd q \<and> first_seen results (fst p) < first_seen results (fst q)))
          (take 10 ?ys)"
    by (rule sorted_wrt_take)
  then have "sorted_wrt (\<lambda>p q. frequency results (fst q) < frequency results (fst p) \<or>
          (frequency results (fst p) = frequency results (fst q) \<and>
           first_seen results (fst p) < first_seen results (fst q))) (take 10 ?ys)"
  proof (rule sorted_wrt_mono_rel [rotated])
    fix p q assume "p \<in> set (take 10 ?ys)" "q \<in> set (take 10 ?ys)"
    then have "p \<in> set ?kc" "q \<in> set ?kc"
      by (auto dest!: in_set_takeD simp: set_py_sorted_desc)
    then have "snd p = frequency results (fst p)" "snd q = frequency results (fst q)"
      by (auto dest: cnt)
    moreover assume "snd q < snd p \<or>
          (snd p = snd q \<and> first_seen results (fst p) < first_seen results (fst q))"
    ultimately show "frequency results (fst q) < frequency results (fst p) \<or>
          (frequency results (fst p) = frequency results (fst q) \<and>
           first_seen results (fst p) < first_seen results (fst q))" by simp
  qed
  then have order: "sorted_wrt (\<lambda>a b. frequency results b < frequency results a \<or>
                 (frequency results a = frequency results b \<and>
                  first_seen results a < first_seen results b))
     (extract_trending_keywords results)"
    by (simp add: extract_trending_keywords_def sorted_wrt_map)
  have len: "length (extract_trending_keywords results) \<le> 10"
    by (simp add: extract_trending_keywords_def)
  have toks_kept: "\<forall>w \<in> set ?toks. keep_word w"
    by (auto simp: kept_tokens_def)
  have "set (extract_trending_keywords results) \<subseteq> set ?toks"
  proof
    fix w assume "w \<in> set (extract_trending_keywords results)"
    then obtain p where "p \<in> set (take 10 ?ys)" "w = fst p"
      by (auto simp: extract_trending_keywords_def)
    then have "p \<in> set ?kc" by (auto dest!: in_set_takeD simp: set_py_sorted_desc)
    then show "w \<in> set ?toks" using s \<open>w = fst p\<close> by force
  qed
  then have filt: "\<forall>w \<in> set (extract_trending_keywords results).
      4 < length w \<and> py_isalpha w \<and> w \<notin> set stopwords"
    using toks_kept by (auto simp: keep_word_def)
  show ?thesis using len order filt by blast
qed

text \<open>
  The claim at three results: \<open>cooking\<close> is seen first, once; the eight words of the
  other two results are seen twice each and come before it.
\<close>

theorem trending_keywords_sorted_filtered_witness:
  "extract_trending_keywords results_abb =
     [''growth'', ''trend'', ''market'', ''tools'', ''growing'', ''quickly'', ''every'',
      ''region'', ''cooking''] \<and>
   map (frequency results_abb) (extract_trending_keywords results_abb) =
     [2, 2, 2, 2, 2, 2, 2, 2, 1] \<and>
   length (extract_trending_keywords results_abb) \<le> 10 \<and>
   list_all (\<lambda>w. 4 < length w \<and> py_isalpha w \<and> w \<notin> set stopwords)
     (extract_trending_keywords results_abb)"
proof -
  have v: "extract_trending_keywords results_abb =
     [''growth'', ''trend'', ''market'', ''tools'', ''growing'', ''quickly'', ''every'',
      ''region'', ''cooking'']"
    by code_simp
  have f: "map (frequency results_abb) (extract_trending_keywords results_abb) =
     [2, 2, 2, 2, 2, 2, 2, 2, 1]"
    by code_simp
  show ?thesis
    unfolding list_all_iff
    using v f trending_keywords_sorted_filtered [of results_abb] by blast
qed

subsection \<open>The report\<close>

lemma run_body_research:
  "run_body be topic n = Inr j \<Longrightarrow> is_research_report j"
  by (auto simp: run_body_def Let_def is_research_report_def research_fields_def
           split: sum.splits)

lemma fields_differ: "research_fields \<noteq> fallback_fields"
  by (simp add: research_fields_def fallback_fields_def)

lemma scan_results_raises:
  "isl (scan_results t rs fs) \<longleftrightarrow> (\<exists>r \<in> set rs. content r = VNone)"
  by (induction rs arbitrary: fs) (auto split: pyval.splits)

lemma contents_from_raises:
  "isl (contents_from i rs) \<longleftrightarrow> (\<exists>r \<in> set rs. content r = VNone)"
proof (induction rs arbitrary: i)
  case Nil
  show ?case by simp
next
  case (Cons a rs)
  show ?case
  proof (cases "content a")
    case VNone
    then show ?thesis by simp
  next
    case (VStr c)
    have "isl (contents_from i (a # rs)) = isl (contents_from (Suc i) rs)"
      using VStr by (cases "contents_from (Suc i) rs") simp_all
    then show ?thesis using Cons.IH [of "Suc i"] VStr by simp
  qed
qed

text \<open>
  The body of \<^verbatim>\<open>_run\<close> raises exactly when a web or news result has the content
  \<^verbatim>\<open>None\<close>: the assembly of the report is where the fallback comes from, the
  searches absorb their own exceptions.
\<close>

lemma run_body_raises:
  "isl (run_body be topic n) \<longleftrightarrow>
     (\<exists>r \<in> set (search_web be topic n @ search_news be topic). content r = VNone)"
proof -
  let ?rs = "search_web be topic n @ search_news be topic"
  have k: "isl (extract_key_findings ?rs topic) \<longleftrightarrow>
           (\<exists>r \<in> set (take 8 ?rs). content r = VNone)"
    using scan_results_raises [of topic "take 8 ?rs" "[]"]
    by (auto simp: extract_key_findings_def split: sum.splits)
  have s: "isl (generate_summary (search_web be topic n) (search_news be topic) topic) \<longleftrightarrow>
           (\<exists>r \<in> set ?rs. content r = VNone)"
    using contents_from_raises [of 0 ?rs]
    by (auto simp: generate_summary_def Let_def split: sum.splits)
  have sub: "(\<exists>r \<in> set (take 8 ?rs). content r = VNone) \<Longrightarrow> (\<exists>r \<in> set ?rs. content r = VNone)"
    by (meson in_set_takeD)
  show ?thesis
    using k s sub by (auto simp: run_body_def Let_def split: sum.splits)
qed

text \<open>
  Claim C3: for every backend, topic and \<open>max_results\<close> the tool returns a value (no
  exception reaches the caller), and the value is a research report or a fallback
  report and not both.
\<close>

theorem run_returns_exactly_one_report:
  "\<exists>j. run be topic max_results = Inr j \<and>
       (is_research_report j \<or> is_fallback_report j) \<and>
       \<not> (is_research_report j \<and> is_fallback_report j)"
proof (cases "run_body be topic max_results")
  case (Inr d)
  have r: "is_research_report d" by (rule run_body_research [OF Inr])
  then have "\<not> is_fallback_report d"
    using fields_differ by (simp add: is_research_report_def is_fallback_report_def)
  then show ?thesis using Inr r by (simp add: run_def)
next
  case (Inl e)
  let ?j = "JObj [(''error'', JStr (''Web search failed: '' @ str_exn e)),
             (''topic'', JStr topic),
             (''fallback_insights'', JObj (generate_fallback_insights topic))]"
  have run: "run be topic max_results = Inr ?j" using Inl by (simp add: run_def)
  have f: "is_fallback_report ?j" by (simp add: is_fallback_report_def fallback_fields_def)
  then have "\<not> is_research_report ?j"
    using fields_differ by (simp add: is_research_report_def is_fallback_report_def)
  then show ?thesis using run f by blast
qed

text \<open>Both kinds of report occur: a research report for \<open>be_ok\<close>.\<close>

theorem run_returns_exactly_one_report_witness:
  "is_research_report (projr (run be_ok ''ai'' 5)) \<and>
   (\<exists>j. run be_ok ''ai'' 5 = Inr j \<and>
        (is_research_report j \<or> is_fallback_report j) \<and>
        \<not> (is_research_report j \<and> is_fallback_report j))"
proof -
  have r: "is_research_report (projr (run be_ok ''ai'' 5))" by code_simp
  show ?thesis using r run_returns_exactly_one_report [of be_ok "''ai''" 5] by blast
qed

text \<open>
  Claim C5, as the code has it: a fallback report has the fields \<open>error\<close>, \<open>topic\<close> and
  \<open>fallback_insights\<close>, and the last has the three templated general insights, the five
  trending themes and, as a third field, a fixed \<open>note\<close>.
\<close>

theorem fallback_report_fields:
  assumes "run be topic max_results = Inr j" and "is_fallback_report j"
  shows "\<exists>msg. j =
     JObj
       [(''error'', JStr (''Web search failed: '' @ msg)),
        (''topic'', JStr topic),
        (''fallback_insights'',
         JObj
           [(''general_insights'',
             JList
               [JStr (topic @ '' is an emerging field with significant potential''),
                JStr (''Industry adoption of '' @ topic @ '' is accelerating''),
                JStr (''Key players are investing heavily in '' @ topic @ '' development'')]),
            (''trending_themes'',
             JList [JStr ''innovation'', JStr ''growth'', JStr ''adoption'', JStr ''technology'',
                    JStr ''market'']),
            (''note'',
             JStr ''These are general insights due to search limitations. For accurate information, please verify with current sources.'')])]"
proof (cases "run_body be topic max_results")
  case (Inr d)
  then have "j = d" using assms(1) by (simp add: run_def)
  then have "is_research_report j" using run_body_research [OF Inr] by simp
  then have False
    using assms(2) fields_differ by (simp add: is_research_report_def is_fallback_report_def)
  then show ?thesis ..
next
  case (Inl e)
  then have "j = JObj [(''error'', JStr (''Web search failed: '' @ str_exn e)),
             (''topic'', JStr topic),
             (''fallback_insights'', JObj (generate_fallback_insights topic))]"
    using assms(1) by (simp add: run_def)
  then show ?thesis by (simp add: generate_fallback_insights_def)
qed

theorem fallback_report_fields_witness:
  "run be_none ''ai'' 5 = Inr fallback_ai \<and> is_fallback_report fallback_ai \<and>
   (\<exists>msg. fallback_ai =
     JObj
       [(''error'', JStr (''Web search failed: '' @ msg)),
        (''topic'', JStr ''ai''),
        (''fallback_insights'',
         JObj
           [(''general_insights'',
             JList
               [JStr (''ai'' @ '' is an emerging field with significant potential''),
                JStr (''Industry adoption of '' @ ''ai'' @ '' is accelerating''),
                JStr (''Key players are investing heavily in '' @ ''ai'' @ '' development'')]),
            (''trending_themes'',
             JList [JStr ''innovation'', JStr ''growth'', JStr ''adoption'', JStr ''technology'',
                    JStr ''market'']),
            (''note'',
             JStr ''These are general insights due to search limitations. For accurate information, please verify with current sources.'')])])"
proof -
  have h1: "run be_none ''ai'' 5 = Inr fallback_ai" by code_simp
  have h2: "is_fallback_report fallback_ai" by code_simp
  show ?thesis using h1 h2 fallback_report_fields [OF h1 h2] by blast
qed

text \<open>
  Claim C5 as stated fails: the news hit of \<open>be_none\<close> has the snippet \<^verbatim>\<open>None\<close>, the
  report is the fallback report, and its \<open>fallback_insights\<close> has the field \<open>note\<close>
  beside the two that the claim allows.
\<close>

theorem fallback_has_note_counterexample:
  "run be_none ''ai'' 5 = Inr fallback_ai \<and>
   is_fallback_report fallback_ai \<and>
   keys_of (json_get ''fallback_insights'' fallback_ai) =
     [''general_insights'', ''trending_themes'', ''note''] \<and>
   \<not> fallback_fields_claimed fallback_ai"
  by code_simp

text \<open>
  Claim C9: when the three queries raise, the tool returns a research report with no
  web and no news results, no key findings and no trending keywords, and a summary
  that is the header line and the closing sentence.
\<close>

theorem all_queries_fail_empty_research_report:
  assumes "isl (web_invoke be (general_query topic))"
    and "isl (web_invoke be (expert_query topic))"
    and "isl (news_invoke be (news_query topic))"
  shows "run be topic max_results =
     Inr (JObj
       [(''topic'', JStr topic),
        (''search_performed_at'', JStr (now_isoformat be)),
        (''web_results'', JObj [(''count'', JInt 0), (''results'', JList [])]),
        (''news_results'', JObj [(''count'', JInt 0), (''results'', JList [])]),
        (''key_findings'', JList []),
        (''trending_keywords'', JList []),
        (''summary'',
         JStr (py_join newline
           [''Research Summary for '' @ quote @ topic @ quote @ '':'' @ newline,
            newline @ ''The research indicates '' @ topic @
            '' is an active area with substantial industry interest and ongoing developments.''])),
        (''sources'', JList [])])"
proof -
  have w: "search_web be topic max_results = []"
    using assms(1) by (auto simp: search_web_def split: sum.splits)
  have n: "search_news be topic = []"
    using assms(3) by (auto simp: search_news_def split: sum.splits)
  have k: "extract_key_findings [] topic = Inr []"
    by (simp add: extract_key_findings_def)
  have t: "extract_trending_keywords [] = []"
    by (simp add: extract_trending_keywords_def)
  have s: "generate_summary [] [] topic =
     Inr (py_join newline
           [''Research Summary for '' @ quote @ topic @ quote @ '':'' @ newline,
            newline @ ''The research indicates '' @ topic @
            '' is an active area with substantial industry interest and ongoing developments.''])"
    by (simp add: generate_summary_def Let_def py_lower_def)
  have u: "get_unique_sources be [] = []"
    by (simp add: get_unique_sources_def)
  show ?thesis
    unfolding run_def run_body_def w n by (simp add: k t s u)
qed

theorem all_queries_fail_empty_research_report_witness:
  "isl (web_invoke be_down (general_query ''ai'')) \<and>
   isl (web_invoke be_down (expert_query ''ai'')) \<and>
   isl (news_invoke be_down (news_query ''ai'')) \<and>
   is_research_report (projr (run be_down ''ai'' 5)) \<and>
   run be_down ''ai'' 5 =
     Inr (JObj
       [(''topic'', JStr ''ai''),
        (''search_performed_at'', JStr (now_isoformat be_down)),
        (''web_results'', JObj [(''count'', JInt 0), (''results'', JList [])]),
        (''news_results'', JObj [(''count'', JInt 0), (''results'', JList [])]),
        (''key_findings'', JList []),
        (''trending_keywords'', JList []),
        (''summary'',
         JStr (py_join newline
           [''Research Summary for '' @ quote @ ''ai'' @ quote @ '':'' @ newline,
            newline @ ''The research indicates '' @ ''ai'' @
            '' is an active area with substantial industry interest and ongoing developments.''])),
        (''sources'', JList [])])"
proof -
  have h1: "isl (web_invoke be_down (general_query ''ai''))" by code_simp
  have h2: "isl (web_invoke be_down (expert_query ''ai''))" by code_simp
  have h3: "isl (news_invoke be_down (news_query ''ai''))" by code_simp
  have r: "is_research_report (projr (run be_down ''ai'' 5))" by code_simp
  show ?thesis
    using h1 h2 h3 r all_queries_fail_empty_research_report [OF h1 h2 h3, of 5] by blast
qed

end
